theory Spec2Isabelle
  imports Main "HOL-Library.Word" "HOL-Library.Signed_Division" "HOL-Library.Multiset"
begin

section \<open>Data model of the routine pool (pool.go, worker.go)\<close>

text \<open>
  Go's \<open>int\<close> is taken at its 64-bit width: a two's complement word whose \<open>+\<close> wraps.
  An \<open>error\<close> value is modelled by its message, \<open>nil\<close> by \<open>None\<close>. A value of type
  \<open>interface{}\<close> is an optional value of an arbitrary type \<open>'v\<close>, \<open>nil\<close> being \<open>None\<close>.
  A \<open>chan Result\<close> is a reference (a position in the list of allocated result
  channels of the system); the \<open>nil\<close> channel is \<open>None\<close>.
\<close>

type_synonym go_int = "64 word"
type_synonym error = string
type_synonym chan_ref = nat

text \<open>
  A task function \<open>func() (interface{}, error)\<close> is called once by the worker that runs
  the task. It is modelled by the outcome of that call: the pair it returns, or a panic.
  A call that never returns is not modelled.
\<close>

datatype 'v computation = Returns "'v option" "error option" | Faults

text \<open>\<open>type Task struct { index int; fn func() (interface{}, error); responseCh chan Result }\<close>\<close>

datatype 'v Task = Task (index: go_int) (fn: "'v computation") (responseCh: "chan_ref option")

text \<open>\<open>type Future struct { Result chan Result }\<close>; a \<open>*Future\<close> is a \<open>Future option\<close>.\<close>

datatype Future = Future (Result: "chan_ref option")

text \<open>\<open>type Result struct { index int; value interface{}; err error }\<close>\<close>

record 'v Result =
  index :: go_int
  "value" :: "'v option"
  err :: "error option"

text \<open>
  A buffered channel: the queued elements (oldest first), the capacity given to \<open>make\<close>,
  and whether \<open>close\<close> has been called on it.
\<close>

record 'a chan =
  ch_buf :: "'a list"
  ch_cap :: nat
  ch_closed :: bool

text \<open>
  \<open>type worker struct { id int; owner *Pool; requestCh chan Task; shutdown chan struct{} }\<close>.
  Nothing is ever sent on \<open>shutdown\<close>: its state is whether it is closed. \<open>requestCh\<close> is
  unbuffered and never closed, so it has no state of its own: a send on it completes
  together with a receive (the \<open>Handoff\<close> event below). The back pointer \<open>owner\<close> is
  implicit, the system holding one pool.
\<close>

record worker =
  wid :: go_int
  shutdown :: bool

text \<open>
  \<open>type Pool struct { numWorkers int; taskCh chan Task; workers []*worker;
  closed atomic.Bool; wg sync.WaitGroup; shutdownCh chan struct{} }\<close>.
  The wait group is its counter.
\<close>

record 'v Pool =
  numWorkers :: go_int
  taskCh :: "'v Task chan"
  workers :: "worker list"
  closed :: bool
  wg :: int
  shutdownCh :: bool

subsection \<open>Goroutines\<close>

text \<open>
  The control points of \<open>worker.start\<close>: blocked in the \<open>select\<close>; holding a received
  task whose \<open>fn\<close> is to be called; at the send of the result on \<open>responseCh\<close>; returned.
\<close>

datatype 'v wstate = WSelect | WRun "'v Task" | WSend chan_ref "'v Result" | WDone

text \<open>
  The control points of \<open>Pool.dispatch\<close>: in the \<open>select\<close> with the current \<open>taskIndex\<close>;
  at the send \<open>p.workers[workerIndex].requestCh <- task\<close> with \<open>taskIndex\<close>,
  \<open>workerIndex\<close> and the task; returned.
\<close>

datatype 'v dstate = DSelect go_int | DSend go_int nat "'v Task" | DDone

text \<open>A call of \<open>Stop\<close> past its compare-and-swap waits in \<open>wg.Wait()\<close>, then returns.\<close>

datatype stop_state = SWait | SReturned "error option"

text \<open>A call of \<open>AddTask\<close> past its check is at the send \<open>p.taskCh <- task\<close>, then returns.\<close>

datatype 'v add_state = ASend "'v Task" | AReturned "error option"

text \<open>
  A thread is a worker goroutine (of the worker at a position of \<open>p.workers\<close>), a
  dispatcher goroutine, or a caller inside \<open>Start\<close> (with what it returned), \<open>Stop\<close> or
  \<open>AddTask\<close>.
\<close>

datatype 'v thread =
    WorkerT nat "'v wstate"
  | DispatchT "'v dstate"
  | StartT "error option"
  | StopT stop_state
  | AddTaskT "'v add_state"

text \<open>
  The whole program: the pool, every thread created so far (in creation order), the
  result channels allocated by \<open>newFuture\<close>, and the message of the panic that ended the
  program, if any.
\<close>

record 'v system =
  pool :: "'v Pool"
  threads :: "'v thread list"
  futures :: "'v Result chan list"
  panic :: "string option"

section \<open>Operations\<close>

text \<open>Go's \<open>%\<close> on \<open>int\<close> truncates towards zero (the remainder has the dividend's sign).\<close>

definition go_rem :: "go_int \<Rightarrow> go_int \<Rightarrow> go_int" where
  "go_rem a b = word_of_int (sint a smod sint b)"

text \<open>
  \<open>NewPool\<close> (pool.go:37). \<open>make([]*worker, numWorkers)\<close> panics on a negative length.
  Allocation limits of the platform are not modelled.
\<close>

definition NewPool :: "go_int \<Rightarrow> go_int \<Rightarrow> string + 'v Pool" where
  "NewPool nw taskChSize =
     (let taskChSize = (if taskChSize \<le>s 0 then 1 else taskChSize) in
      if nw <s 0 then Inl ''makeslice: len out of range''
      else Inr \<lparr>numWorkers = nw,
                taskCh = \<lparr>ch_buf = [], ch_cap = unat taskChSize, ch_closed = False\<rparr>,
                workers = map (\<lambda>i. \<lparr>wid = word_of_nat i, shutdown = False\<rparr>) [0..<unat nw],
                closed = True,
                wg = 0,
                shutdownCh = False\<rparr>)"

text \<open>The program right after \<open>NewPool\<close> returned a pool: no thread, no result channel.\<close>

definition boot :: "'v Pool \<Rightarrow> 'v system" where
  "boot p = \<lparr>pool = p, threads = [], futures = [], panic = None\<rparr>"

definition crash :: "string \<Rightarrow> 'v system \<Rightarrow> 'v system" where
  "crash msg s = s\<lparr>panic := Some msg\<rparr>"

text \<open>\<open>wg.Add(n)\<close> and \<open>wg.Done()\<close>: a counter that falls below zero panics.\<close>

definition wg_Add :: "int \<Rightarrow> 'v system \<Rightarrow> 'v system" where
  "wg_Add n s =
     (if wg (pool s) + n < 0 then crash ''sync: negative WaitGroup counter'' s
      else s\<lparr>pool := (pool s)\<lparr>wg := wg (pool s) + n\<rparr>\<rparr>)"

text \<open>
  \<open>Start\<close> (pool.go:62), taken as one step: the compare-and-swap of the flag, the
  \<open>wg.Add\<close>, one \<open>go w.start()\<close> per element of \<open>p.workers\<close>, and \<open>go p.dispatch()\<close>. The
  caller is recorded with the error it returned.
\<close>

definition Start :: "'v system \<Rightarrow> 'v system" where
  "Start s =
     (if \<not> closed (pool s)
      then s\<lparr>threads := threads s @ [StartT (Some ''the pool is already running'')]\<rparr>
      else
        (let s1 = wg_Add (sint (numWorkers (pool s) + 1)) (s\<lparr>pool := (pool s)\<lparr>closed := False\<rparr>\<rparr>) in
         if panic s1 \<noteq> None then s1
         else s1\<lparr>threads := threads s1
                    @ map (\<lambda>i. WorkerT i WSelect) [0..<length (workers (pool s1))]
                    @ [DispatchT (DSelect 0), StartT None]\<rparr>))"

text \<open>\<open>newFuture\<close> (pool.go:76): \<open>make(chan Result, size)\<close> panics on a negative size.\<close>

definition newFuture :: "go_int \<Rightarrow> 'v system \<Rightarrow> 'v system" where
  "newFuture sz s =
     (if sz <s 0 then crash ''makechan: size out of range'' s
      else s\<lparr>futures := futures s @ [\<lparr>ch_buf = [], ch_cap = unat sz, ch_closed = False\<rparr>]\<rparr>)"

text \<open>
  \<open>AddTask\<close> (pool.go:83) up to its send: the load of the flag, then the dereference
  \<open>future.Result\<close> (a panic on a nil \<open>*Future\<close>) building the task.
\<close>

definition AddTask :: "Future option \<Rightarrow> go_int \<Rightarrow> 'v computation \<Rightarrow> 'v system \<Rightarrow> 'v system" where
  "AddTask future i f s =
     (if closed (pool s)
      then s\<lparr>threads := threads s @ [AddTaskT (AReturned (Some ''the pool is closed''))]\<rparr>
      else case future of
             None \<Rightarrow> crash ''invalid memory address or nil pointer dereference'' s
           | Some fu \<Rightarrow> s\<lparr>threads := threads s @ [AddTaskT (ASend (Task i f (Result fu)))]\<rparr>)"

text \<open>
  The send \<open>p.taskCh <- task\<close> of \<open>AddTask\<close> by thread \<open>n\<close>: a panic on a closed channel,
  blocked (\<open>None\<close>) while the buffer is full, else the task joins the tail of the buffer
  and \<open>AddTask\<close> returns \<open>nil\<close>.
\<close>

definition AddTask_send :: "nat \<Rightarrow> 'v Task \<Rightarrow> 'v system \<Rightarrow> 'v system option" where
  "AddTask_send n t s =
     (let q = taskCh (pool s) in
      if ch_closed q then Some (crash ''send on closed channel'' s)
      else if length (ch_buf q) \<ge> ch_cap q then None
      else Some (s\<lparr>pool := (pool s)\<lparr>taskCh := q\<lparr>ch_buf := ch_buf q @ [t]\<rparr>\<rparr>,
                   threads := (threads s)[n := AddTaskT (AReturned None)]\<rparr>))"

text \<open>\<open>close\<close> of each worker's \<open>shutdown\<close> channel in turn (pool.go:99).\<close>

fun close_workers :: "worker list \<Rightarrow> worker list option" where
  "close_workers [] = Some []"
| "close_workers (w # ws) =
     (if shutdown w then None
      else case close_workers ws of
             None \<Rightarrow> None
           | Some ws' \<Rightarrow> Some (w\<lparr>shutdown := True\<rparr> # ws'))"

text \<open>
  \<open>Stop\<close> (pool.go:93) up to \<open>wg.Wait()\<close>, taken as one step: the compare-and-swap, then
  the three kinds of \<open>close\<close>, each a panic on a channel that is closed already.
\<close>

definition Stop :: "'v system \<Rightarrow> 'v system" where
  "Stop s =
     (if closed (pool s)
      then s\<lparr>threads := threads s @ [StopT (SReturned (Some ''the pool is already closed''))]\<rparr>
      else
        (let p = (pool s)\<lparr>closed := True\<rparr>; s1 = s\<lparr>pool := p\<rparr> in
         if ch_closed (taskCh p) then crash ''close of closed channel'' s1
         else if shutdownCh p
         then crash ''close of closed channel'' (s1\<lparr>pool := p\<lparr>taskCh := (taskCh p)\<lparr>ch_closed := True\<rparr>\<rparr>\<rparr>)
         else case close_workers (workers p) of
                None \<Rightarrow> crash ''close of closed channel''
                          (s1\<lparr>pool := p\<lparr>taskCh := (taskCh p)\<lparr>ch_closed := True\<rparr>, shutdownCh := True\<rparr>\<rparr>)
              | Some ws \<Rightarrow>
                  s1\<lparr>pool := p\<lparr>taskCh := (taskCh p)\<lparr>ch_closed := True\<rparr>, shutdownCh := True,
                               workers := ws\<rparr>,
                     threads := threads s @ [StopT SWait]\<rparr>))"

text \<open>\<open>wg.Wait()\<close> of \<open>Stop\<close> by thread \<open>n\<close>: blocked until the counter is zero.\<close>

definition Stop_wait :: "nat \<Rightarrow> 'v system \<Rightarrow> 'v system option" where
  "Stop_wait n s =
     (if wg (pool s) = 0 then Some (s\<lparr>threads := (threads s)[n := StopT (SReturned None)]\<rparr>)
      else None)"

text \<open>\<open>Future.Close\<close> (pool.go:127).\<close>

definition Close :: "Future option \<Rightarrow> 'v system \<Rightarrow> 'v system" where
  "Close future s =
     (case future of
        None \<Rightarrow> crash ''invalid memory address or nil pointer dereference'' s
      | Some fu \<Rightarrow>
          (case Result fu of
             None \<Rightarrow> crash ''close of nil channel'' s
           | Some c \<Rightarrow>
               if ch_closed (futures s ! c) then crash ''close of closed channel'' s
               else s\<lparr>futures := (futures s)[c := (futures s ! c)\<lparr>ch_closed := True\<rparr>]\<rparr>))"

text \<open>
  A receive \<open><-future.Result\<close> by the collector: the oldest result leaves the buffer;
  blocked on an empty open channel; on an empty closed one it yields the zero value and
  changes nothing.
\<close>

definition collect :: "chan_ref \<Rightarrow> 'v system \<Rightarrow> 'v system option" where
  "collect c s =
     (let ch = futures s ! c in
      case ch_buf ch of
        [] \<Rightarrow> if ch_closed ch then Some s else None
      | r # rs \<Rightarrow> Some (s\<lparr>futures := (futures s)[c := ch\<lparr>ch_buf := rs\<rparr>]\<rparr>))"

subsection \<open>The dispatcher goroutine (pool.go:107)\<close>

text \<open>The deferred \<open>wg.Done()\<close> of a returning goroutine \<open>n\<close>, which ends in state \<open>fin\<close>.\<close>

definition goroutine_return :: "nat \<Rightarrow> 'v thread \<Rightarrow> 'v system \<Rightarrow> 'v system" where
  "goroutine_return n fin s = wg_Add (- 1) (s\<lparr>threads := (threads s)[n := fin]\<rparr>)"

text \<open>
  The case \<open>task, ok := <-p.taskCh\<close> of the dispatcher's \<open>select\<close>: with a task in the
  buffer it takes the oldest one and evaluates \<open>taskIndex % p.numWorkers\<close> (a panic on
  zero) and \<open>p.workers[workerIndex]\<close> (a panic out of range), reaching the send; on an
  empty closed channel it returns; on an empty open one the case is not ready.
\<close>

definition dispatch_recv :: "nat \<Rightarrow> go_int \<Rightarrow> 'v system \<Rightarrow> 'v system option" where
  "dispatch_recv n taskIndex s =
     (let p = pool s; q = taskCh p in
      case ch_buf q of
        [] \<Rightarrow> if ch_closed q then Some (goroutine_return n (DispatchT DDone) s) else None
      | t # ts \<Rightarrow>
          (let s1 = s\<lparr>pool := p\<lparr>taskCh := q\<lparr>ch_buf := ts\<rparr>\<rparr>\<rparr> in
           if numWorkers p = 0 then Some (crash ''integer divide by zero'' s1)
           else
             (let workerIndex = go_rem taskIndex (numWorkers p) in
              if workerIndex <s 0 \<or> unat workerIndex \<ge> length (workers p)
              then Some (crash ''index out of range'' s1)
              else Some (s1\<lparr>threads := (threads s1)[n := DispatchT (DSend taskIndex (unat workerIndex) t)]\<rparr>))))"

text \<open>The case \<open><-p.shutdownCh\<close> of the dispatcher's \<open>select\<close>: ready once the channel is closed.\<close>

definition dispatch_shutdown :: "nat \<Rightarrow> 'v system \<Rightarrow> 'v system option" where
  "dispatch_shutdown n s =
     (if shutdownCh (pool s) then Some (goroutine_return n (DispatchT DDone) s) else None)"

text \<open>
  The send \<open>p.workers[workerIndex].requestCh <- task\<close> of dispatcher \<open>d\<close> meets the receive
  \<open>task, ok := <-w.requestCh\<close> of a goroutine \<open>n\<close> of that worker waiting in its \<open>select\<close>;
  the dispatcher goes on to \<open>taskIndex++\<close> and its next \<open>select\<close>.
\<close>

definition handoff :: "nat \<Rightarrow> nat \<Rightarrow> 'v system \<Rightarrow> 'v system option" where
  "handoff d n s =
     (if d < length (threads s) \<and> n < length (threads s) then
        (case (threads s ! d, threads s ! n) of
           (DispatchT (DSend taskIndex workerIndex t), WorkerT w WSelect) \<Rightarrow>
             if w = workerIndex
             then Some (s\<lparr>threads := (threads s)[d := DispatchT (DSelect (taskIndex + 1)),
                                                  n := WorkerT w (WRun t)]\<rparr>)
             else None
         | _ \<Rightarrow> None)
      else None)"

subsection \<open>The worker goroutine (worker.go, \<open>start\<close>)\<close>

text \<open>
  After the receive: \<open>result, err := task.fn()\<close>, then the result is built and sent if
  \<open>task.responseCh != nil\<close>; otherwise the loop goes back to the \<open>select\<close>.
\<close>

definition worker_run :: "'v Task \<Rightarrow> string + 'v wstate" where
  "worker_run t =
     (case fn t of
        Faults \<Rightarrow> Inl ''panic in task function''
      | Returns v e \<Rightarrow>
          (case responseCh t of
             None \<Rightarrow> Inr WSelect
           | Some c \<Rightarrow> Inr (WSend c \<lparr>index = Task.index t, value = v, err = e\<rparr>)))"

text \<open>
  The send \<open>task.responseCh <- Result{...}\<close> by goroutine \<open>n\<close> of worker \<open>w\<close>: a panic on a
  closed channel, blocked while the buffer is full, else the result joins the buffer
  and the loop goes back to the \<open>select\<close>.
\<close>

definition worker_send :: "nat \<Rightarrow> nat \<Rightarrow> chan_ref \<Rightarrow> 'v Result \<Rightarrow> 'v system \<Rightarrow> 'v system option" where
  "worker_send n w c r s =
     (let ch = futures s ! c in
      if ch_closed ch then Some (crash ''send on closed channel'' s)
      else if length (ch_buf ch) \<ge> ch_cap ch then None
      else Some (s\<lparr>futures := (futures s)[c := ch\<lparr>ch_buf := ch_buf ch @ [r]\<rparr>],
                   threads := (threads s)[n := WorkerT w WSelect]\<rparr>))"

text \<open>
  The cases \<open><-w.shutdown\<close> and \<open><-w.owner.shutdownCh\<close> of the worker's \<open>select\<close>: ready once
  the channel is closed; either way the goroutine returns.
\<close>

definition worker_shutdown :: "nat \<Rightarrow> nat \<Rightarrow> 'v system \<Rightarrow> 'v system option" where
  "worker_shutdown n w s =
     (if shutdown (workers (pool s) ! w) \<or> shutdownCh (pool s)
      then Some (goroutine_return n (WorkerT w WDone) s)
      else None)"

section \<open>The program as a transition system\<close>

text \<open>
  An event is one scheduling step: a caller entering an operation, a thread taking its
  next action (\<open>Step\<close>; in a \<open>select\<close> this is the receive of a task), a thread taking a
  shutdown case of its \<open>select\<close>, the rendezvous of a dispatcher and a worker, or the
  collector receiving from a result channel.
\<close>

datatype 'v event =
    CallStart
  | CallStop
  | CallNewFuture go_int
  | CallAddTask "Future option" go_int "'v computation"
  | CallClose "Future option"
  | Collect chan_ref
  | Step nat
  | Shutdown nat
  | Handoff nat nat

text \<open>A caller can only hold result channels that have been allocated.\<close>

definition known_future :: "Future option \<Rightarrow> 'v system \<Rightarrow> bool" where
  "known_future future s =
     (case future of
        Some (Future (Some c)) \<Rightarrow> c < length (futures s)
      | _ \<Rightarrow> True)"

definition step_thread :: "nat \<Rightarrow> 'v system \<Rightarrow> 'v system option" where
  "step_thread n s =
     (if n < length (threads s) then
        (case threads s ! n of
           AddTaskT (ASend t) \<Rightarrow> AddTask_send n t s
         | StopT SWait \<Rightarrow> Stop_wait n s
         | DispatchT (DSelect k) \<Rightarrow> dispatch_recv n k s
         | WorkerT w (WRun t) \<Rightarrow>
             (case worker_run t of
                Inl msg \<Rightarrow> Some (crash msg s)
              | Inr st \<Rightarrow> Some (s\<lparr>threads := (threads s)[n := WorkerT w st]\<rparr>))
         | WorkerT w (WSend c r) \<Rightarrow> worker_send n w c r s
         | _ \<Rightarrow> None)
      else None)"

definition shutdown_thread :: "nat \<Rightarrow> 'v system \<Rightarrow> 'v system option" where
  "shutdown_thread n s =
     (if n < length (threads s) then
        (case threads s ! n of
           DispatchT (DSelect k) \<Rightarrow> dispatch_shutdown n s
         | WorkerT w WSelect \<Rightarrow> worker_shutdown n w s
         | _ \<Rightarrow> None)
      else None)"

text \<open>\<open>None\<close>: the event cannot happen in this state. A program that panicked has ended.\<close>

definition step :: "'v event \<Rightarrow> 'v system \<Rightarrow> 'v system option" where
  "step ev s =
     (if panic s \<noteq> None then None
      else case ev of
             CallStart \<Rightarrow> Some (Start s)
           | CallStop \<Rightarrow> Some (Stop s)
           | CallNewFuture sz \<Rightarrow> Some (newFuture sz s)
           | CallAddTask future i f \<Rightarrow>
               if known_future future s then Some (AddTask future i f s) else None
           | CallClose future \<Rightarrow>
               if known_future future s then Some (Close future s) else None
           | Collect c \<Rightarrow> if c < length (futures s) then collect c s else None
           | Step n \<Rightarrow> step_thread n s
           | Shutdown n \<Rightarrow> shutdown_thread n s
           | Handoff d n \<Rightarrow> handoff d n s)"

text \<open>A run: the events happen one after the other, each from the state the last one left.\<close>

fun exec :: "'v event list \<Rightarrow> 'v system \<Rightarrow> 'v system option" where
  "exec [] s = Some s"
| "exec (ev # evs) s = (case step ev s of None \<Rightarrow> None | Some s' \<Rightarrow> exec evs s')"

text \<open>
  What a call returned: every call event appends its caller as the last thread, so the
  caller of the call that led from \<open>s\<close> to \<open>s'\<close> is the last thread of \<open>s'\<close>. A call that
  panicked has returned nothing.
\<close>

definition returned :: "'v system \<Rightarrow> 'v system \<Rightarrow> 'v thread option" where
  "returned s s' =
     (if panic s' = None \<and> length (threads s) < length (threads s')
      then Some (last (threads s')) else None)"

text \<open>Everything \<open>Stop\<close> closes is closed: the intake queue and all shutdown channels.\<close>

definition shut :: "'v Pool \<Rightarrow> bool" where
  "shut p = (ch_closed (taskCh p) \<and> shutdownCh p \<and> (\<forall>w \<in> set (workers p). shutdown w))"

subsection \<open>Observations of a run\<close>





text \<open>
  The tasks that the \<open>AddTask\<close> calls of a run were given (on a non-nil \<open>*Future\<close>), in
  call order.
\<close>

fun submitted :: "'v event list \<Rightarrow> 'v Task list" where
  "submitted [] = []"
| "submitted (CallAddTask (Some fu) i f # evs) = Task i f (Result fu) # submitted evs"
| "submitted (ev # evs) = submitted evs"

text \<open>
  The result a task stands for, with the channel it is for: the task's index with what
  its function returns. A task with a nil channel, or whose function panics, stands for
  none.
\<close>

definition result_of :: "'v Task \<Rightarrow> (chan_ref \<times> 'v Result) option" where
  "result_of t =
     (case (fn t, responseCh t) of
        (Returns v e, Some c) \<Rightarrow> Some (c, \<lparr>index = Task.index t, value = v, err = e\<rparr>)
      | _ \<Rightarrow> None)"

text \<open>The task a thread holds and has not run yet, and the result a worker is sending.\<close>

fun held :: "'v thread \<Rightarrow> 'v Task list" where
  "held (AddTaskT (ASend t)) = [t]"
| "held (DispatchT (DSend k w t)) = [t]"
| "held (WorkerT w (WRun t)) = [t]"
| "held _ = []"

fun sending :: "'v thread \<Rightarrow> (chan_ref \<times> 'v Result) list" where
  "sending (WorkerT w (WSend c r)) = [(c, r)]"
| "sending _ = []"

text \<open>
  The tasks in flight (in the intake queue or held by a thread) and the results in
  flight or delivered (being sent by a worker, or in the buffer of a result channel).
\<close>

definition tasks_in :: "'v system \<Rightarrow> 'v Task set" where
  "tasks_in s = set (ch_buf (taskCh (pool s))) \<union> (\<Union>th \<in> set (threads s). set (held th))"

definition results_in :: "'v system \<Rightarrow> (chan_ref \<times> 'v Result) set" where
  "results_in s =
     (\<Union>th \<in> set (threads s). set (sending th))
     \<union> {(c, r). c < length (futures s) \<and> r \<in> set (ch_buf (futures s ! c))}"

section \<open>Construction\<close>




section \<open>The worker's loop\<close>

text \<open>What the scheduler's \<open>Step\<close> does for a worker goroutine past its receive.\<close>

lemma step_worker_run:
  assumes "panic s = None" "n < length (threads s)" "threads s ! n = WorkerT w (WRun t)"
  shows "step (Step n) s =
           (case worker_run t of
              Inl msg \<Rightarrow> Some (crash msg s)
            | Inr st \<Rightarrow> Some (s\<lparr>threads := (threads s)[n := WorkerT w st]\<rparr>))"
  using assms by (simp add: step_def step_thread_def)

lemma step_worker_send:
  assumes "panic s = None" "n < length (threads s)" "threads s ! n = WorkerT w (WSend c r)"
  shows "step (Step n) s = worker_send n w c r s"
  using assms by (simp add: step_def step_thread_def)

text \<open>
  C8. A worker goroutine that received a task whose function returns \<open>(v, e)\<close>, whatever
  \<open>e\<close> is: with a nil \<open>responseCh\<close> its next step leads straight back to the \<open>select\<close>
  and changes nothing else (the result is dropped, no panic); with a channel \<open>c\<close> its next
  step reaches the send of the result carrying the task's index, \<open>v\<close> and \<open>e\<close>, and when \<open>c\<close>
  is open with room the send appends exactly that result to \<open>c\<close> and the goroutine is back
  in its \<open>select\<close>, ready for the next task.
\<close>

theorem worker_loop_iteration:
  assumes live: "panic s = None"
    and n: "n < length (threads s)"
    and at: "threads s ! n = WorkerT w (WRun t)"
    and ret: "fn t = Returns v e"
  shows "(responseCh t = None \<longrightarrow>
            step (Step n) s = Some (s\<lparr>threads := (threads s)[n := WorkerT w WSelect]\<rparr>))
       \<and> (\<forall>c. responseCh t = Some c \<longrightarrow>
            step (Step n) s
              = Some (s\<lparr>threads := (threads s)
                         [n := WorkerT w (WSend c \<lparr>index = Task.index t, value = v, err = e\<rparr>)]\<rparr>)
            \<and> (\<not> ch_closed (futures s ! c) \<and> length (ch_buf (futures s ! c)) < ch_cap (futures s ! c) \<longrightarrow>
                 exec [Step n, Step n] s
                   = Some (s\<lparr>futures := (futures s)
                              [c := (futures s ! c)\<lparr>ch_buf := ch_buf (futures s ! c)
                                     @ [\<lparr>index = Task.index t, value = v, err = e\<rparr>]\<rparr>],
                            threads := (threads s)[n := WorkerT w WSelect]\<rparr>)))"
proof (intro conjI allI impI)
  assume "responseCh t = None"
  then show "step (Step n) s = Some (s\<lparr>threads := (threads s)[n := WorkerT w WSelect]\<rparr>)"
    using ret by (simp add: step_worker_run [OF live n at] worker_run_def)
next
  fix c
  assume c: "responseCh t = Some c"
  let ?r = "\<lparr>index = Task.index t, value = v, err = e\<rparr>"
  let ?s1 = "s\<lparr>threads := (threads s)[n := WorkerT w (WSend c ?r)]\<rparr>"
  show run: "step (Step n) s = Some ?s1"
    using ret c by (simp add: step_worker_run [OF live n at] worker_run_def)
  assume room: "\<not> ch_closed (futures s ! c) \<and> length (ch_buf (futures s ! c)) < ch_cap (futures s ! c)"
  have "step (Step n) ?s1 = worker_send n w c ?r ?s1"
    using live n by (intro step_worker_send) simp_all
  with room run
  show "exec [Step n, Step n] s
          = Some (s\<lparr>futures := (futures s)
                     [c := (futures s ! c)\<lparr>ch_buf := ch_buf (futures s ! c) @ [?r]\<rparr>],
                   threads := (threads s)[n := WorkerT w WSelect]\<rparr>)"
    by (simp add: worker_send_def Let_def)
qed

text \<open>The theorem on a worker holding task 2, whose function returned \<open>(5, nil)\<close>.\<close>

theorem worker_loop_iteration_witness:
  "exec [Step 0, Step 0]
           \<lparr>pool = \<lparr>numWorkers = 1, taskCh = \<lparr>ch_buf = [], ch_cap = 1, ch_closed = False\<rparr>,
                     workers = [\<lparr>wid = 0, shutdown = False\<rparr>], closed = False, wg = 2,
                     shutdownCh = False\<rparr>,
            threads = [WorkerT 0 (WRun (Task 2 (Returns (Some (5::nat)) None) (Some 0))),
                       DispatchT (DSelect 1)],
            futures = [\<lparr>ch_buf = [], ch_cap = 1, ch_closed = False\<rparr>],
            panic = None\<rparr>
     = Some \<lparr>pool = \<lparr>numWorkers = 1, taskCh = \<lparr>ch_buf = [], ch_cap = 1, ch_closed = False\<rparr>,
                     workers = [\<lparr>wid = 0, shutdown = False\<rparr>], closed = False, wg = 2,
                     shutdownCh = False\<rparr>,
            threads = [WorkerT 0 WSelect, DispatchT (DSelect 1)],
            futures = [\<lparr>ch_buf = [\<lparr>index = 2, value = Some 5, err = None\<rparr>], ch_cap = 1,
                         ch_closed = False\<rparr>],
            panic = None\<rparr>"
  using worker_loop_iteration [of
           "\<lparr>pool = \<lparr>numWorkers = 1, taskCh = \<lparr>ch_buf = [], ch_cap = 1, ch_closed = False\<rparr>,
                     workers = [\<lparr>wid = 0, shutdown = False\<rparr>], closed = False, wg = 2,
                     shutdownCh = False\<rparr>,
            threads = [WorkerT 0 (WRun (Task 2 (Returns (Some (5::nat)) None) (Some 0))),
                       DispatchT (DSelect 1)],
            futures = [\<lparr>ch_buf = [], ch_cap = 1, ch_closed = False\<rparr>],
            panic = None\<rparr>" 0 0 "Task 2 (Returns (Some 5) None) (Some 0)" "Some 5" None]
  by (simp del: exec.simps)

text \<open>
  C6 (amended). A task whose function returns an error \<open>e\<close> together with a value \<open>v\<close>: the
  result appended to the task's channel carries the task's index, the error \<open>e\<close>
  unchanged, and as its value the very \<open>v\<close> the function returned (nil only when the
  function returned nil).
\<close>

theorem task_error_carried:
  assumes live: "panic s = None"
    and n: "n < length (threads s)"
    and at: "threads s ! n = WorkerT w (WRun (Task i (Returns v (Some e)) (Some c)))"
    and room: "\<not> ch_closed (futures s ! c)" "length (ch_buf (futures s ! c)) < ch_cap (futures s ! c)"
  shows "\<exists>s'. exec [Step n, Step n] s = Some s'
           \<and> panic s' = None
           \<and> futures s' = (futures s)[c := (futures s ! c)
                  \<lparr>ch_buf := ch_buf (futures s ! c) @ [\<lparr>index = i, value = v, err = Some e\<rparr>]\<rparr>]"
proof -
  let ?r = "\<lparr>index = i, value = v, err = Some e\<rparr>"
  let ?s1 = "s\<lparr>threads := (threads s)[n := WorkerT w (WSend c ?r)]\<rparr>"
  have run: "step (Step n) s = Some ?s1"
    by (simp add: step_worker_run [OF live n at] worker_run_def)
  have "step (Step n) ?s1 = worker_send n w c ?r ?s1"
    using live n by (intro step_worker_send) simp_all
  with room run live show ?thesis
    by (simp add: worker_send_def Let_def)
qed

text \<open>The theorem on task 4, whose function returned \<open>(8, "boom")\<close>.\<close>

theorem task_error_carried_witness:
  "\<exists>s'. exec [Step 0, Step 0]
           \<lparr>pool = \<lparr>numWorkers = 1, taskCh = \<lparr>ch_buf = [], ch_cap = 1, ch_closed = False\<rparr>,
                     workers = [\<lparr>wid = 0, shutdown = False\<rparr>], closed = False, wg = 2,
                     shutdownCh = False\<rparr>,
            threads = [WorkerT 0 (WRun (Task 4 (Returns (Some (8::nat)) (Some ''boom'')) (Some 0))),
                       DispatchT (DSelect 1)],
            futures = [\<lparr>ch_buf = [], ch_cap = 1, ch_closed = False\<rparr>],
            panic = None\<rparr> = Some s'
       \<and> panic s' = None
       \<and> futures s' = [\<lparr>ch_buf = [\<lparr>index = 4, value = Some 8, err = Some ''boom''\<rparr>], ch_cap = 1,
                          ch_closed = False\<rparr>]"
  using task_error_carried [of
           "\<lparr>pool = \<lparr>numWorkers = 1, taskCh = \<lparr>ch_buf = [], ch_cap = 1, ch_closed = False\<rparr>,
                     workers = [\<lparr>wid = 0, shutdown = False\<rparr>], closed = False, wg = 2,
                     shutdownCh = False\<rparr>,
            threads = [WorkerT 0 (WRun (Task 4 (Returns (Some (8::nat)) (Some ''boom'')) (Some 0))),
                       DispatchT (DSelect 1)],
            futures = [\<lparr>ch_buf = [], ch_cap = 1, ch_closed = False\<rparr>],
            panic = None\<rparr>" 0 0 4 "Some 8" "''boom''" 0]
  by simp

text \<open>
  C6 as stated (the result of a failing task carries no value) fails for a function that
  returns a value next to its error: the worker copies both into the result.
\<close>

theorem task_error_with_value_counterexample:
  "worker_run (Task 4 (Returns (Some (8::nat)) (Some ''boom'')) (Some 0))
     = Inr (WSend 0 \<lparr>index = 4, value = Some 8, err = Some ''boom''\<rparr>)
   \<and> value \<lparr>index = 4, value = Some (8::nat), err = Some ''boom''\<rparr> \<noteq> None"
  by (simp add: worker_run_def)

section \<open>A pool without workers\<close>




section \<open>Steps and runs\<close>

lemmas op_defs = Start_def Stop_def newFuture_def AddTask_def AddTask_send_def Stop_wait_def
  Close_def collect_def goroutine_return_def dispatch_recv_def dispatch_shutdown_def handoff_def
  worker_send_def worker_shutdown_def wg_Add_def crash_def step_thread_def shutdown_thread_def

lemmas op_splits = thread.splits wstate.splits dstate.splits stop_state.splits
  add_state.splits option.splits sum.splits list.splits if_splits prod.splits

text \<open>Only a program that has not panicked takes steps.\<close>

lemma step_live: "step ev s = Some s' \<Longrightarrow> panic s = None"
  by (cases "panic s") (simp_all add: step_def)

lemma exec_append:
  "exec (xs @ ys) s = (case exec xs s of None \<Rightarrow> None | Some s' \<Rightarrow> exec ys s')"
  by (induction xs arbitrary: s) (simp_all split: option.splits)

text \<open>A property kept by every step of a run holds at its end.\<close>

lemma exec_invariant:
  assumes "exec evs s = Some s'" and "P s"
    and "\<And>ev a b. ev \<in> set evs \<Longrightarrow> P a \<Longrightarrow> step ev a = Some b \<Longrightarrow> P b"
  shows "P s'"
  using assms
proof (induction evs arbitrary: s)
  case Nil
  then show ?case by simp
next
  case (Cons ev evs)
  from Cons.prems(1) obtain a where a: "step ev s = Some a" and rest: "exec evs a = Some s'"
    by (auto split: option.splits)
  have "P a"
    using Cons.prems(3) [of ev s a] Cons.prems(2) a by simp
  moreover have "\<And>e x y. e \<in> set evs \<Longrightarrow> P x \<Longrightarrow> step e x = Some y \<Longrightarrow> P y"
    using Cons.prems(3) by (meson list.set_intros(2))
  ultimately show ?case
    using rest Cons.IH by blast
qed

text \<open>
  The flag changes only in \<open>Start\<close> and \<open>Stop\<close>; no step reopens a channel, lets the wait
  group fall below zero or changes the worker count.
\<close>

lemma flag_stays_running:
  assumes "step ev s = Some s'" "ev \<noteq> CallStop" "\<not> closed (pool s)"
  shows "\<not> closed (pool s')"
  using assms
  by (cases ev) (auto simp: step_def op_defs Let_def split: op_splits)

lemma flag_stays_stopped:
  assumes "step ev s = Some s'" "ev \<noteq> CallStart" "closed (pool s)"
  shows "closed (pool s')"
  using assms
  by (cases ev) (auto simp: step_def op_defs Let_def split: op_splits)

lemma close_workers_all: "close_workers ws = Some ws' \<Longrightarrow> (\<forall>w \<in> set ws'. shutdown w) \<and> length ws' = length ws"
  by (induction ws arbitrary: ws') (auto split: if_splits option.splits)

lemma shut_stays:
  assumes "step ev s = Some s'" "shut (pool s)"
  shows "shut (pool s')"
  using assms
  by (cases ev) (auto simp: shut_def step_def op_defs Let_def split: op_splits)

lemma wg_nonneg_step:
  assumes "step ev s = Some s'" "0 \<le> wg (pool s)"
  shows "0 \<le> wg (pool s')"
  using assms
  by (cases ev) (auto simp: step_def op_defs Let_def split: op_splits)

lemma numWorkers_step:
  assumes "step ev s = Some s'"
  shows "numWorkers (pool s') = numWorkers (pool s)"
  using assms
  by (cases ev) (auto simp: step_def op_defs Let_def split: op_splits)

lemma exec_flag_running:
  "exec evs s = Some s' \<Longrightarrow> CallStop \<notin> set evs \<Longrightarrow> \<not> closed (pool s) \<Longrightarrow> \<not> closed (pool s')"
  by (rule exec_invariant [where P = "\<lambda>s. \<not> closed (pool s)"]) (auto dest: flag_stays_running)

lemma exec_flag_stopped:
  "exec evs s = Some s' \<Longrightarrow> CallStart \<notin> set evs \<Longrightarrow> closed (pool s) \<Longrightarrow> closed (pool s')"
  by (rule exec_invariant [where P = "\<lambda>s. closed (pool s)"]) (auto dest: flag_stays_stopped)

lemma exec_shut: "exec evs s = Some s' \<Longrightarrow> shut (pool s) \<Longrightarrow> shut (pool s')"
  by (rule exec_invariant [where P = "\<lambda>s. shut (pool s)"]) (auto dest: shut_stays)

lemma exec_wg_nonneg: "exec evs s = Some s' \<Longrightarrow> 0 \<le> wg (pool s) \<Longrightarrow> 0 \<le> wg (pool s')"
  by (rule exec_invariant [where P = "\<lambda>s. 0 \<le> wg (pool s)"]) (auto dest: wg_nonneg_step)

lemma exec_numWorkers: "exec evs s = Some s' \<Longrightarrow> numWorkers (pool s') = numWorkers (pool s)"
  by (rule exec_invariant [where P = "\<lambda>a. numWorkers (pool a) = numWorkers (pool s)"])
     (auto dest: numWorkers_step)

lemma sint_succ:
  assumes "0 \<le>s (nw :: go_int)" "nw \<noteq> 2 ^ 63 - 1"
  shows "sint (nw + 1) = sint nw + 1"
proof -
  have lo: "0 \<le> sint nw"
    using assms(1) by (simp add: word_sle_eq)
  have "sint nw < 2 ^ 63"
    using sint_lt [of nw] by simp
  moreover have "sint nw \<noteq> 2 ^ 63 - 1"
  proof
    assume "sint nw = 2 ^ 63 - 1"
    then have "word_of_int (sint nw) = (word_of_int (2 ^ 63 - 1) :: go_int)"
      by simp
    then show False
      using assms(2) by simp
  qed
  ultimately have hi: "sint nw + 1 < 2 ^ 63"
    by simp
  have "sint (nw + 1) = signed_take_bit 63 (sint nw + 1)"
    by (simp add: sint_word_ariths)
  also have "\<dots> = sint nw + 1"
    using lo hi by (intro signed_take_bit_int_eq_self) simp_all
  finally show ?thesis .
qed

section \<open>Lifecycle\<close>

lemma NewPool_Inr:
  assumes "NewPool nw cap = Inr p"
  shows "0 \<le>s nw \<and> numWorkers p = nw \<and> wg p = 0 \<and> closed p \<and> length (workers p) = unat nw"
  using assms by (auto simp: NewPool_def Let_def word_sle_eq word_sless_alt split: if_splits)

lemma reach_wg:
  assumes "NewPool nw cap = Inr p" "exec evs (boot p) = Some s"
  shows "0 \<le> wg (pool s) \<and> numWorkers (pool s) = nw"
  using exec_wg_nonneg [OF assms(2)] exec_numWorkers [OF assms(2)] NewPool_Inr [OF assms(1)]
  by (simp add: boot_def)

lemma Start_running:
  "\<not> closed (pool s) \<Longrightarrow> Start s = s\<lparr>threads := threads s @ [StartT (Some ''the pool is already running'')]\<rparr>"
  by (simp add: Start_def)

lemma Start_stopped:
  assumes "closed (pool s)" "panic s = None" "0 \<le> wg (pool s)" "0 \<le> sint (numWorkers (pool s) + 1)"
  shows "Start s = s\<lparr>pool := (pool s)\<lparr>closed := False, wg := wg (pool s) + sint (numWorkers (pool s) + 1)\<rparr>,
                    threads := threads s @ map (\<lambda>i. WorkerT i WSelect) [0..<length (workers (pool s))]
                                 @ [DispatchT (DSelect 0), StartT None]\<rparr>"
  using assms by (simp add: Start_def wg_Add_def Let_def crash_def)

lemma Stop_stopped:
  "closed (pool s) \<Longrightarrow> Stop s = s\<lparr>threads := threads s @ [StopT (SReturned (Some ''the pool is already closed''))]\<rparr>"
  by (simp add: Stop_def)

lemma Stop_running:
  assumes "\<not> closed (pool s)"
  shows "closed (pool (Stop s))
       \<and> (panic s = None \<longrightarrow> returned s (Stop s) \<noteq> Some (StopT (SReturned (Some ''the pool is already closed''))))
       \<and> (panic (Stop s) = None \<longrightarrow> shut (pool (Stop s)))"
  using assms
  by (auto simp: Stop_def Let_def crash_def returned_def shut_def dest: close_workers_all split: option.splits)

text \<open>
  C4. In every state a pool built by \<open>NewPool\<close> reaches: \<open>Start\<close> returns "the pool is
  already running" exactly when the flag is not Stopped, and otherwise sets the flag to
  Running and returns \<open>nil\<close>; \<open>Stop\<close> returns "the pool is already closed" exactly when
  the flag is not Running, and otherwise sets it to Stopped. Hence a second \<open>Start\<close> with
  no \<open>Stop\<close> since the first returns the error, and so does a second \<open>Stop\<close> with no
  \<open>Start\<close> since the first, whatever else happened in between. (The bound on the worker
  count keeps \<open>numWorkers + 1\<close> from overflowing in \<open>wg.Add\<close>.)
\<close>

theorem lifecycle_flag:
  assumes built: "NewPool nw cap = Inr p"
    and bound: "nw \<noteq> 2 ^ 63 - 1"
    and run: "exec evs (boot p) = Some s"
    and live: "panic s = None"
  shows "step CallStart s = Some (Start s)
       \<and> (returned s (Start s) = Some (StartT (Some ''the pool is already running''))) = (\<not> closed (pool s))
       \<and> (closed (pool s) \<longrightarrow> \<not> closed (pool (Start s)) \<and> returned s (Start s) = Some (StartT None))
       \<and> step CallStop s = Some (Stop s)
       \<and> (returned s (Stop s) = Some (StopT (SReturned (Some ''the pool is already closed'')))) = closed (pool s)
       \<and> (\<not> closed (pool s) \<longrightarrow> closed (pool (Stop s)))
       \<and> (\<forall>evs' s2 s3. exec evs' (Start s) = Some s2 \<and> CallStop \<notin> set evs' \<and> step CallStart s2 = Some s3
             \<longrightarrow> returned s2 s3 = Some (StartT (Some ''the pool is already running'')))
       \<and> (\<forall>evs' s2 s3. exec evs' (Stop s) = Some s2 \<and> CallStart \<notin> set evs' \<and> step CallStop s2 = Some s3
             \<longrightarrow> returned s2 s3 = Some (StopT (SReturned (Some ''the pool is already closed''))))"
proof -
  have wf: "0 \<le> wg (pool s)" "numWorkers (pool s) = nw"
    using reach_wg [OF built run] by simp_all
  have pos: "0 \<le> sint (numWorkers (pool s) + 1)"
    using sint_succ [OF _ bound] NewPool_Inr [OF built] wf(2) by (simp add: word_sle_eq)
  have start_run: "\<not> closed (pool (Start s))"
    by (cases "closed (pool s)") (simp_all add: Start_stopped live wf(1) pos Start_running)
  have stop_flag: "closed (pool (Stop s))"
    using Stop_running [of s] by (cases "closed (pool s)") (simp_all add: Stop_stopped)
  have again_start: "returned s2 s3 = Some (StartT (Some ''the pool is already running''))"
    if "exec evs' (Start s) = Some s2" "CallStop \<notin> set evs'" "step CallStart s2 = Some s3"
    for evs' s2 s3
  proof -
    have "\<not> closed (pool s2)"
      using exec_flag_running [OF that(1,2) start_run] .
    moreover have "panic s2 = None"
      using that(3) by (rule step_live)
    ultimately show ?thesis
      using that(3) by (auto simp: step_def Start_running returned_def)
  qed
  have again_stop: "returned s2 s3 = Some (StopT (SReturned (Some ''the pool is already closed'')))"
    if "exec evs' (Stop s) = Some s2" "CallStart \<notin> set evs'" "step CallStop s2 = Some s3"
    for evs' s2 s3
  proof -
    have "closed (pool s2)"
      using exec_flag_stopped [OF that(1,2) stop_flag] .
    moreover have "panic s2 = None"
      using that(3) by (rule step_live)
    ultimately show ?thesis
      using that(3) by (auto simp: step_def Stop_stopped returned_def)
  qed
  have a: "step CallStart s = Some (Start s)" "step CallStop s = Some (Stop s)"
    using live by (simp_all add: step_def)
  have b: "(returned s (Start s) = Some (StartT (Some ''the pool is already running''))) = (\<not> closed (pool s))"
    using live by (cases "closed (pool s)") (simp_all add: Start_stopped wf(1) pos Start_running returned_def)
  have c: "closed (pool s) \<longrightarrow> \<not> closed (pool (Start s)) \<and> returned s (Start s) = Some (StartT None)"
    using live by (simp add: Start_stopped wf(1) pos returned_def)
  have d: "(returned s (Stop s) = Some (StopT (SReturned (Some ''the pool is already closed'')))) = closed (pool s)"
    using live Stop_running [of s] by (cases "closed (pool s)") (simp_all add: Stop_stopped returned_def)
  show ?thesis
    using a b c d stop_flag again_start again_stop by blast
qed

text \<open>The theorem on \<open>NewPool(3, 10)\<close>: Start, Start again, Stop, Stop again.\<close>

theorem lifecycle_flag_witness:
  "(NewPool 3 10 :: string + nat Pool) = Inr (projr (NewPool 3 10))
   \<and> returned (boot (projr (NewPool 3 10 :: string + nat Pool)))
               (Start (boot (projr (NewPool 3 10))))
         = Some (StartT None)
   \<and> returned (Start (boot (projr (NewPool 3 10 :: string + nat Pool))))
               (Start (Start (boot (projr (NewPool 3 10)))))
         = Some (StartT (Some ''the pool is already running''))
   \<and> returned (Stop (Start (boot (projr (NewPool 3 10 :: string + nat Pool)))))
               (Stop (Stop (Start (boot (projr (NewPool 3 10))))))
         = Some (StopT (SReturned (Some ''the pool is already closed'')))"
proof -
  let ?p = "projr (NewPool 3 10 :: string + nat Pool)"
  have built: "NewPool 3 10 = Inr ?p"
    by (simp add: NewPool_def word_sle_eq word_sless_alt)
  have bound: "(3 :: go_int) \<noteq> 2 ^ 63 - 1"
    by simp
  have idle: "closed (pool (boot ?p))" "panic (boot ?p) = None"
    by (simp_all add: boot_def NewPool_def word_sle_eq word_sless_alt)
  have run0: "exec [] (boot ?p) = Some (boot ?p)"
    by simp
  note first = lifecycle_flag [OF built bound run0 idle(2)]
  have run1: "exec [CallStart] (boot ?p) = Some (Start (boot ?p))"
    using first by simp
  have live1: "panic (Start (boot ?p)) = None"
    using first idle(1) by (simp add: returned_def split: if_splits)
  note second = lifecycle_flag [OF built bound run1 live1]
  have a: "returned (boot ?p) (Start (boot ?p)) = Some (StartT None)"
    using first idle(1) by blast
  have b: "returned (Start (boot ?p)) (Start (Start (boot ?p)))
             = Some (StartT (Some ''the pool is already running''))"
    using first idle(1) second by blast
  have live2: "panic (Stop (Start (boot ?p))) = None"
    by (simp add: boot_def NewPool_def word_sle_eq word_sless_alt Start_def Stop_def wg_Add_def
          Let_def crash_def upt_rec)
  have again: "\<forall>evs' s2 s3. exec evs' (Stop (Start (boot ?p))) = Some s2 \<and> CallStart \<notin> set evs'
                   \<and> step CallStop s2 = Some s3
                 \<longrightarrow> returned s2 s3 = Some (StopT (SReturned (Some ''the pool is already closed'')))"
    using second by blast
  have c: "returned (Stop (Start (boot ?p))) (Stop (Stop (Start (boot ?p))))
             = Some (StopT (SReturned (Some ''the pool is already closed'')))"
    using again [rule_format, of "[]" "Stop (Start (boot ?p))" "Stop (Stop (Start (boot ?p)))"] live2
    by (simp add: step_def)
  show ?thesis
    using built a b c by blast
qed

section \<open>Submission\<close>

lemma step_AddTask_send:
  assumes "panic s = None" "n < length (threads s)" "threads s ! n = AddTaskT (ASend t)"
  shows "step (Step n) s = AddTask_send n t s"
  using assms by (simp add: step_def step_thread_def)

text \<open>The definitions a concrete run is evaluated with.\<close>

lemmas run_defs = step_def op_defs known_future_def boot_def NewPool_def Let_def
  word_sle_eq word_sless_alt upt_rec

text \<open>
  C3 (amended). A call of \<open>AddTask\<close> in a program that has not panicked: if the flag reads
  Stopped it returns "the pool is closed" and changes nothing but the caller (the intake
  queue is as it was); if the flag reads Running and the \<open>*Future\<close> is not nil, it builds
  the task from the index, the function and the future's channel and goes to the send
  on the intake queue, which on an open queue appends the task at the tail as soon as
  there is room and returns \<open>nil\<close>, and is blocked while the queue is full. Whenever a
  \<open>Stop\<close> has happened and no \<open>Start\<close> since, \<open>AddTask\<close> returns "the pool is closed".
  Nothing is said about a queue that an earlier \<open>Stop\<close> has closed.
\<close>

theorem submit_checks_flag:
  assumes live: "panic s = None"
    and known: "known_future future s"
  shows "(closed (pool s) \<longrightarrow>
            step (CallAddTask future i f) s
              = Some (s\<lparr>threads := threads s @ [AddTaskT (AReturned (Some ''the pool is closed''))]\<rparr>))
       \<and> (\<forall>fu. \<not> closed (pool s) \<and> future = Some fu \<longrightarrow>
            step (CallAddTask future i f) s
              = Some (s\<lparr>threads := threads s @ [AddTaskT (ASend (Task i f (Result fu)))]\<rparr>)
            \<and> (\<not> ch_closed (taskCh (pool s)) \<longrightarrow>
                 step (Step (length (threads s)))
                      (s\<lparr>threads := threads s @ [AddTaskT (ASend (Task i f (Result fu)))]\<rparr>)
                   = (if ch_cap (taskCh (pool s)) \<le> length (ch_buf (taskCh (pool s))) then None
                      else Some (s\<lparr>pool := (pool s)\<lparr>taskCh := (taskCh (pool s))
                                         \<lparr>ch_buf := ch_buf (taskCh (pool s)) @ [Task i f (Result fu)]\<rparr>\<rparr>,
                                   threads := threads s @ [AddTaskT (AReturned None)]\<rparr>))))
       \<and> (\<forall>s0 evs. step CallStop s0 = Some (Stop s0) \<and> exec evs (Stop s0) = Some s \<and> CallStart \<notin> set evs
             \<longrightarrow> step (CallAddTask future i f) s
                   = Some (s\<lparr>threads := threads s @ [AddTaskT (AReturned (Some ''the pool is closed''))]\<rparr>))"
proof (intro conjI allI impI)
  assume "closed (pool s)"
  then show "step (CallAddTask future i f) s
              = Some (s\<lparr>threads := threads s @ [AddTaskT (AReturned (Some ''the pool is closed''))]\<rparr>)"
    using live known by (simp add: step_def AddTask_def)
next
  fix fu
  assume run: "\<not> closed (pool s) \<and> future = Some fu"
  let ?t = "Task i f (Result fu)"
  let ?s1 = "s\<lparr>threads := threads s @ [AddTaskT (ASend ?t)]\<rparr>"
  show "step (CallAddTask future i f) s = Some ?s1"
    using run live known by (simp add: step_def AddTask_def)
  assume "\<not> ch_closed (taskCh (pool s))"
  moreover have "step (Step (length (threads s))) ?s1 = AddTask_send (length (threads s)) ?t ?s1"
    using live by (intro step_AddTask_send) simp_all
  ultimately show "step (Step (length (threads s))) ?s1
                   = (if ch_cap (taskCh (pool s)) \<le> length (ch_buf (taskCh (pool s))) then None
                      else Some (s\<lparr>pool := (pool s)\<lparr>taskCh := (taskCh (pool s))
                                         \<lparr>ch_buf := ch_buf (taskCh (pool s)) @ [?t]\<rparr>\<rparr>,
                                   threads := threads s @ [AddTaskT (AReturned None)]\<rparr>))"
    by (simp add: AddTask_send_def Let_def)
next
  fix s0 evs
  assume a: "step CallStop s0 = Some (Stop s0) \<and> exec evs (Stop s0) = Some s \<and> CallStart \<notin> set evs"
  have "closed (pool (Stop s0))"
    using Stop_running [of s0] by (cases "closed (pool s0)") (simp_all add: Stop_stopped)
  with a have "closed (pool s)"
    using exec_flag_stopped by blast
  then show "step (CallAddTask future i f) s
              = Some (s\<lparr>threads := threads s @ [AddTaskT (AReturned (Some ''the pool is closed''))]\<rparr>)"
    using live known by (simp add: step_def AddTask_def)
qed

text \<open>The theorem on a started pool of one worker: the task reaches the send.\<close>

theorem submit_checks_flag_witness:
  "panic (Start (boot (projr (NewPool 1 1 :: string + nat Pool)))) = None
   \<and> known_future (Some (Future None)) (Start (boot (projr (NewPool 1 1 :: string + nat Pool))))
   \<and> step (CallAddTask (Some (Future None)) 5 (Returns None None))
           (Start (boot (projr (NewPool 1 1 :: string + nat Pool))))
       = Some ((Start (boot (projr (NewPool 1 1))))
                \<lparr>threads := threads (Start (boot (projr (NewPool 1 1))))
                              @ [AddTaskT (ASend (Task 5 (Returns None None) None))]\<rparr>)"
proof -
  let ?s = "Start (boot (projr (NewPool 1 1 :: string + nat Pool)))"
  have live: "panic ?s = None"
    by (simp add: run_defs)
  have known: "known_future (Some (Future None)) ?s"
    by (simp add: known_future_def)
  have running: "\<not> closed (pool ?s)"
    by (simp add: run_defs)
  show ?thesis
    using submit_checks_flag [OF live known, of 5 "Returns None None"] live known running
    by simp
qed

text \<open>
  C3 as stated (a flag that does not read Stopped means the task is enqueued; every
  \<open>AddTask\<close> after a successful \<open>Stop\<close> returns the error) fails on a pool that was
  stopped and started again: \<open>Stop\<close> returned \<open>nil\<close> (thread 3), the second \<open>Start\<close> set
  the flag to Running, and the \<open>AddTask\<close> that follows passes the check and panics in its
  send on the closed queue, enqueuing nothing and returning nothing.
\<close>

theorem submit_restarted_counterexample:
  "exec [CallStart, CallStop, Shutdown 0, Shutdown 1, Step 3, CallStart]
        (boot (projr (NewPool 1 1 :: string + nat Pool))) \<noteq> None
   \<and> threads (the (exec [CallStart, CallStop, Shutdown 0, Shutdown 1, Step 3, CallStart]
                          (boot (projr (NewPool 1 1 :: string + nat Pool))))) ! 3
       = StopT (SReturned None)
   \<and> \<not> closed (pool (the (exec [CallStart, CallStop, Shutdown 0, Shutdown 1, Step 3, CallStart]
                                (boot (projr (NewPool 1 1 :: string + nat Pool))))))
   \<and> exec [CallStart, CallStop, Shutdown 0, Shutdown 1, Step 3, CallStart,
            CallAddTask (Some (Future None)) 5 (Returns None None), Step 7]
        (boot (projr (NewPool 1 1 :: string + nat Pool))) \<noteq> None
   \<and> panic (the (exec [CallStart, CallStop, Shutdown 0, Shutdown 1, Step 3, CallStart,
                         CallAddTask (Some (Future None)) 5 (Returns None None), Step 7]
                        (boot (projr (NewPool 1 1 :: string + nat Pool)))))
       = Some ''send on closed channel''
   \<and> ch_buf (taskCh (pool (the (exec [CallStart, CallStop, Shutdown 0, Shutdown 1, Step 3, CallStart,
                         CallAddTask (Some (Future None)) 5 (Returns None None), Step 7]
                        (boot (projr (NewPool 1 1 :: string + nat Pool))))))) = []"
  by (simp add: run_defs)

section \<open>Restart\<close>

text \<open>
  C10. Take any state a pool built by \<open>NewPool\<close> reaches with its flag Running, and a
  \<open>Stop\<close> there that gets through its closes. In every state reached later, whatever
  happens, the intake queue and all shutdown channels are still closed. If in such a
  state the flag reads Stopped, \<open>Start\<close> returns \<open>nil\<close> and sets the flag to Running, an
  \<open>AddTask\<close> that follows passes the check, and its send on the intake queue panics.
\<close>

theorem not_restartable:
  assumes built: "NewPool nw cap = Inr p"
    and bound: "nw \<noteq> 2 ^ 63 - 1"
    and run: "exec evs (boot p) = Some s"
    and running: "\<not> closed (pool s)"
    and stop: "step CallStop s = Some s1" "panic s1 = None"
    and later: "exec evs' s1 = Some s2"
  shows "shut (pool s2)
       \<and> (closed (pool s2) \<and> panic s2 = None \<and> known_future (Some fu) s2 \<longrightarrow>
            step CallStart s2 = Some (Start s2)
          \<and> returned s2 (Start s2) = Some (StartT None)
          \<and> \<not> closed (pool (Start s2))
          \<and> exec [CallAddTask (Some fu) i f] (Start s2)
              = Some ((Start s2)\<lparr>threads := threads (Start s2) @ [AddTaskT (ASend (Task i f (Result fu)))]\<rparr>)
          \<and> exec [CallAddTask (Some fu) i f, Step (length (threads (Start s2)))] (Start s2)
              = Some (crash ''send on closed channel''
                       ((Start s2)\<lparr>threads := threads (Start s2) @ [AddTaskT (ASend (Task i f (Result fu)))]\<rparr>)))"
proof -
  have s1: "s1 = Stop s" and live: "panic s = None"
    using stop(1) by (auto simp: step_def split: if_splits)
  have "shut (pool s1)"
    using Stop_running [OF running] stop(2) s1 by simp
  then have shut2: "shut (pool s2)"
    using exec_shut [OF later] by simp
  have run2: "exec (evs @ CallStop # evs') (boot p) = Some s2"
    using run stop(1) later by (simp add: exec_append)
  show ?thesis
  proof (intro conjI impI)
    show "shut (pool s2)" by (rule shut2)
  next
    assume a: "closed (pool s2) \<and> panic s2 = None \<and> known_future (Some fu) s2"
    have wf: "0 \<le> wg (pool s2)" "numWorkers (pool s2) = nw"
      using reach_wg [OF built run2] by simp_all
    have pos: "0 \<le> sint (numWorkers (pool s2) + 1)"
      using sint_succ [OF _ bound] NewPool_Inr [OF built] wf(2) by (simp add: word_sle_eq)
    note st = Start_stopped [OF _ _ wf(1) pos]
    let ?s3 = "Start s2"
    let ?s4 = "?s3\<lparr>threads := threads ?s3 @ [AddTaskT (ASend (Task i f (Result fu)))]\<rparr>"
    have live3: "panic ?s3 = None" and open3: "\<not> closed (pool ?s3)"
      and q3: "ch_closed (taskCh (pool ?s3))" and known3: "known_future (Some fu) ?s3"
      using a shut2 by (simp_all add: st shut_def known_future_def split: Future.splits option.splits)
    show "step CallStart s2 = Some ?s3"
      using a by (simp add: step_def)
    show "returned s2 ?s3 = Some (StartT None)"
      using a by (simp add: st returned_def)
    show "\<not> closed (pool ?s3)"
      by (rule open3)
    have add: "step (CallAddTask (Some fu) i f) ?s3 = Some ?s4"
      using live3 open3 known3 by (simp add: step_def AddTask_def)
    then show "exec [CallAddTask (Some fu) i f] ?s3 = Some ?s4"
      by simp
    have "step (Step (length (threads ?s3))) ?s4
            = AddTask_send (length (threads ?s3)) (Task i f (Result fu)) ?s4"
      using live3 by (intro step_AddTask_send) simp_all
    then have "step (Step (length (threads ?s3))) ?s4 = Some (crash ''send on closed channel'' ?s4)"
      using q3 by (simp add: AddTask_send_def Let_def)
    with add show "exec [CallAddTask (Some fu) i f, Step (length (threads ?s3))] ?s3
              = Some (crash ''send on closed channel'' ?s4)"
      by simp
  qed
qed

text \<open>
  The theorem on a pool of one worker: started, stopped, both goroutines gone and
  \<open>Stop\<close> returned, then started again and given a task.
\<close>

theorem not_restartable_witness:
  "shut (pool (the (exec [CallStart, CallStop, Shutdown 0, Shutdown 1, Step 3]
                         (boot (projr (NewPool 1 1 :: string + nat Pool))))))
   \<and> returned (the (exec [CallStart, CallStop, Shutdown 0, Shutdown 1, Step 3]
                         (boot (projr (NewPool 1 1 :: string + nat Pool)))))
        (Start (the (exec [CallStart, CallStop, Shutdown 0, Shutdown 1, Step 3]
                         (boot (projr (NewPool 1 1 :: string + nat Pool))))))
       = Some (StartT None)
   \<and> panic (the (exec [CallAddTask (Some (Future None)) 5 (Returns None None), Step 7]
                  (Start (the (exec [CallStart, CallStop, Shutdown 0, Shutdown 1, Step 3]
                         (boot (projr (NewPool 1 1 :: string + nat Pool))))))))
       = Some ''send on closed channel''"
proof -
  let ?p = "projr (NewPool 1 1 :: string + nat Pool)"
  let ?s = "Start (boot ?p)"
  let ?s2 = "the (exec [CallStart, CallStop, Shutdown 0, Shutdown 1, Step 3] (boot ?p))"
  have built: "NewPool 1 1 = Inr ?p"
    by (simp add: NewPool_def word_sle_eq word_sless_alt)
  have bound: "(1 :: go_int) \<noteq> 2 ^ 63 - 1"
    by simp
  have run: "exec [CallStart] (boot ?p) = Some ?s"
    by (simp add: step_def boot_def)
  have running: "\<not> closed (pool ?s)"
    by (simp add: run_defs)
  have stop: "step CallStop ?s = Some (Stop ?s)" "panic (Stop ?s) = None"
    by (simp_all add: run_defs)
  have later: "exec [Shutdown 0, Shutdown 1, Step 3] (Stop ?s) = Some ?s2"
    by (simp add: run_defs)
  have idle: "closed (pool ?s2) \<and> panic ?s2 = None \<and> known_future (Some (Future None)) ?s2"
    by (simp add: run_defs)
  have len: "length (threads (Start ?s2)) = 7"
    by (simp add: run_defs)
  note main = not_restartable [OF built bound run running stop later,
      of "Future None" 5 "Returns None None"]
  have "shut (pool ?s2)"
    using main by blast
  moreover have "returned ?s2 (Start ?s2) = Some (StartT None)"
    using main idle by blast
  moreover have "exec [CallAddTask (Some (Future None)) 5 (Returns None None), Step 7] (Start ?s2)
          = Some (crash ''send on closed channel''
               ((Start ?s2)\<lparr>threads := threads (Start ?s2)
                    @ [AddTaskT (ASend (Task 5 (Returns None None) (Result (Future None))))]\<rparr>))"
    using main idle len by (simp del: exec.simps)
  then have "panic (the (exec [CallAddTask (Some (Future None)) 5 (Returns None None), Step 7] (Start ?s2)))
          = Some ''send on closed channel''"
    by (simp add: crash_def del: exec.simps)
  ultimately show ?thesis
    by blast
qed

section \<open>Round-robin dispatch\<close>












end
